theory Spec2Isabelle
  imports Main
begin

section \<open>Python values, classes and errors\<close>

text \<open>
  The exceptions that the modelled code can raise. \<open>PrematureEndOfInput\<close> is built by
  \<^verbatim>\<open>PrematureEndOfInput.from_reader(message, reader)\<close>, which records the reader's
  current position; the value keeps the message and that position.
\<close>

datatype py_error =
    TypeError
  | SyntaxError
  | PrematureEndOfInput string nat

text \<open>
  The classes that occur in \<^verbatim>\<open>reader.py\<close>. \<^verbatim>\<open>class Comment(Keyword)\<close> is declared
  there; \<open>Keyword\<close> and \<open>Symbol\<close> are imported from \<^verbatim>\<open>hy.models\<close>, where both derive
  from \<open>Object\<close> (and \<open>Symbol\<close> from \<open>str\<close> as well).
\<close>

datatype py_class =
    Class_Comment
  | Class_Keyword
  | Class_Symbol
  | Class_Object
  | Class_str
  | Class_bool
  | Class_NoneType
  | Class_object

text \<open>
  Objects: a \<open>Comment\<close> and a \<open>Keyword\<close> carry the attribute \<open>name\<close>; a \<open>Symbol\<close> is
  a text (\<open>Symbol\<close> derives from \<open>str\<close>) and keeps nothing else.
\<close>

datatype py_object =
    Comment (name: string)
  | Keyword (name: string)
  | Symbol string
  | Str string
  | Bool bool
  | NoneObj

fun type_of :: "py_object \<Rightarrow> py_class" where
  "type_of (Comment _) = Class_Comment"
| "type_of (Keyword _) = Class_Keyword"
| "type_of (Symbol _) = Class_Symbol"
| "type_of (Str _) = Class_str"
| "type_of (Bool _) = Class_bool"
| "type_of NoneObj = Class_NoneType"

text \<open>The base classes as the class statements list them.\<close>

fun bases :: "py_class \<Rightarrow> py_class list" where
  "bases Class_Comment = [Class_Keyword]"
| "bases Class_Keyword = [Class_Object]"
| "bases Class_Symbol = [Class_Object, Class_str]"
| "bases Class_Object = [Class_object]"
| "bases Class_str = [Class_object]"
| "bases Class_bool = [Class_object]"
| "bases Class_NoneType = [Class_object]"
| "bases Class_object = []"

text \<open>
  \<open>issubclass\<close> follows the base classes upwards; the hierarchy above has depth three, so
  a bound of eight steps (the number of classes) always suffices.
\<close>

fun subclass_within :: "nat \<Rightarrow> py_class \<Rightarrow> py_class \<Rightarrow> bool" where
  "subclass_within 0 c d = (c = d)"
| "subclass_within (Suc n) c d = (c = d \<or> list_ex (\<lambda>b. subclass_within n b d) (bases c))"

definition issubclass :: "py_class \<Rightarrow> py_class \<Rightarrow> bool" where
  "issubclass c d = subclass_within 8 c d"

definition isinstance :: "py_object \<Rightarrow> py_class \<Rightarrow> bool" where
  "isinstance x c = issubclass (type_of x) c"

section \<open>The class Comment\<close>

definition newline :: char where
  "newline = CHR 0x0A"

text \<open>
  \<^verbatim>\<open>def __init__(self, value): self.name = str(value)\<close>. The value is a text, on which
  \<open>str\<close> is the identity.
\<close>

definition Comment_init :: "string \<Rightarrow> py_object" where
  "Comment_init v = Comment v"

text \<open>\<^verbatim>\<open>def __str__(self): return ";%s\n" % self.name\<close>\<close>

definition Comment_str :: "py_object \<Rightarrow> string" where
  "Comment_str self = '';'' @ name self @ [newline]"

text \<open>\<^verbatim>\<open>def __eq__(self, other): return False\<close>\<close>

definition Comment_eq :: "py_object \<Rightarrow> py_object \<Rightarrow> bool" where
  "Comment_eq self other = False"

text \<open>\<^verbatim>\<open>def __ne__(self, other): return True\<close>\<close>

definition Comment_ne :: "py_object \<Rightarrow> py_object \<Rightarrow> bool" where
  "Comment_ne self other = True"

text \<open>
  \<^verbatim>\<open>def __bool__(self, other): return False\<close>: the method is declared with two
  positional parameters, \<open>self\<close> and \<open>other\<close>.
\<close>

definition Comment_bool :: "py_object \<Rightarrow> py_object \<Rightarrow> py_object" where
  "Comment_bool self other = Bool False"

text \<open>
  Calling a function of two required positional parameters with a list of positional
  arguments: any number of arguments other than two raises \<open>TypeError\<close>.
\<close>

definition call_two_params :: "('a \<Rightarrow> 'a \<Rightarrow> 'b) \<Rightarrow> 'a list \<Rightarrow> py_error + 'b" where
  "call_two_params f args = (case args of [a, b] \<Rightarrow> Inr (f a b) | _ \<Rightarrow> Inl TypeError)"

text \<open>
  The operators \<open>a == b\<close> and \<open>a != b\<close>. The method of the left operand's class runs
  first unless the right operand's class is a proper subclass of it that overrides the
  method; no class derives from \<open>Comment\<close>, so a \<open>Comment\<close> on the left is compared by
  \<open>Comment.__eq__\<close> and \<open>Comment.__ne__\<close>. With a \<open>Comment\<close> on the right only, the left
  operand's method either declines or is overridden by the subclass \<open>Comment\<close>, and the
  reflected call decides. Objects of the other classes are compared by structure.
\<close>

definition py_eq :: "py_object \<Rightarrow> py_object \<Rightarrow> bool" where
  "py_eq a b =
     (case a of
        Comment _ \<Rightarrow> Comment_eq a b
      | _ \<Rightarrow> (case b of Comment _ \<Rightarrow> Comment_eq b a | _ \<Rightarrow> a = b))"

definition py_ne :: "py_object \<Rightarrow> py_object \<Rightarrow> bool" where
  "py_ne a b =
     (case a of
        Comment _ \<Rightarrow> Comment_ne a b
      | _ \<Rightarrow> (case b of Comment _ \<Rightarrow> Comment_ne b a | _ \<Rightarrow> a \<noteq> b))"

text \<open>
  \<open>bool(x)\<close>: the interpreter calls the \<open>__bool__\<close> method of the object's class with the
  object as the only argument and expects a \<open>bool\<close> back. For a \<open>Comment\<close> that method is
  \<open>Comment.__bool__\<close>; a keyword and a text are true when they are not empty.
\<close>

definition py_bool :: "py_object \<Rightarrow> py_error + bool" where
  "py_bool x =
     (case x of
        Comment _ \<Rightarrow>
          (case call_two_params Comment_bool [x] of
             Inl e \<Rightarrow> Inl e
           | Inr (Bool b) \<Rightarrow> Inr b
           | Inr _ \<Rightarrow> Inl TypeError)
      | Keyword n \<Rightarrow> Inr (n \<noteq> [])
      | Symbol s \<Rightarrow> Inr (s \<noteq> [])
      | Str s \<Rightarrow> Inr (s \<noteq> [])
      | Bool b \<Rightarrow> Inr b
      | NoneObj \<Rightarrow> Inr False)"

section \<open>The base reader\<close>

text \<open>
  \<open>HySafeReader\<close> derives from \<open>HyReader\<close> of the package \<open>hy\<close>, which is imported and
  not part of the repository. The parts of the base reader that the two overridden
  handlers and the constructor use are modelled here after the library: the character
  stream with its positions, \<open>peekc\<close>, \<open>getc\<close>, \<open>getn\<close>, \<open>read_ident\<close>, \<open>read_chars_until\<close>
  and the two base constructors. Characters are those of type \<open>char\<close> (code points below 256).
\<close>

text \<open>
  What a reader table can hold: the two methods that \<open>HySafeReader\<close> defines, a method of
  \<open>HyReader\<close> (by name), or a reader macro that a program registered (by name).
\<close>

datatype handler =
    tag_dispatch_handler
  | line_comment_handler
  | base_handler string
  | registered_macro string

text \<open>
  The reader object: the characters not yet consumed, the position \<open>pos\<close> (the number of
  characters consumed so far, which stands for the line and column of the character
  consumed last), the position \<open>eof_tracker\<close> of the last consumed character that is not
  white space, which \<open>PrematureEndOfInput.from_reader\<close> reports, and the attributes
  \<open>ends_ident\<close>, \<open>reader_table\<close>, \<open>reader_macros\<close>.
\<close>

record reader =
  chars_left :: string
  pos :: nat
  eof_tracker :: nat
  ends_ident :: "char set"
  reader_table :: "string \<rightharpoonup> handler"
  reader_macros :: "string \<rightharpoonup> handler"

type_synonym 'a result = "(py_error + 'a) \<times> reader"

text \<open>
  \<open>str.isspace\<close> on one character, which \<open>str.strip\<close> goes by: the white space of Unicode
  below 256.
\<close>

definition isspace :: "char \<Rightarrow> bool" where
  "isspace c = ((of_char c :: nat) \<in> {9, 10, 11, 12, 13, 28, 29, 30, 31, 32, 133, 160})"

text \<open>
  White space for the reader of \<open>hy\<close>: the six ASCII characters tab, line feed, vertical
  tab, form feed, carriage return and space, and no other.
\<close>

definition hy_whitespace :: "char \<Rightarrow> bool" where
  "hy_whitespace c = ((of_char c :: nat) \<in> {9, 10, 11, 12, 13, 32})"

text \<open>\<open>str.strip()\<close>: white space removed at both ends.\<close>

definition strip :: "string \<Rightarrow> string" where
  "strip s = rev (dropWhile isspace (rev (dropWhile isspace s)))"

text \<open>\<open>HyReader.NON_IDENT\<close>: the characters \<^verbatim>\<open>()[]{};"'`~\<close>.\<close>

definition NON_IDENT :: string where
  "NON_IDENT = ''()[]{};'' @ [CHR 0x22, CHR 0x27, CHR 0x60, CHR ''~'']"

text \<open>\<open>peekc\<close>: the next character as a text of length one, the empty text at the end.\<close>

definition peekc :: "reader \<Rightarrow> string" where
  "peekc self = (case chars_left self of [] \<Rightarrow> [] | c # _ \<Rightarrow> [c])"

text \<open>
  \<open>getc\<close>: consumes one character and advances the position, and the end-of-input
  position as well when the character is not white space; nothing at the end.
\<close>

definition getc :: "reader \<Rightarrow> string \<times> reader" where
  "getc self =
     (case chars_left self of
        [] \<Rightarrow> ([], self)
      | c # cs \<Rightarrow>
          ([c], self\<lparr>chars_left := cs, pos := pos self + 1,
                      eof_tracker := (if hy_whitespace c then eof_tracker self
                                      else pos self + 1)\<rparr>))"

text \<open>\<open>getn(n)\<close>: \<open>getc\<close> \<open>n\<close> times, the characters joined.\<close>

fun getn :: "nat \<Rightarrow> reader \<Rightarrow> string \<times> reader" where
  "getn 0 self = ([], self)"
| "getn (Suc n) self =
     (let (c, self1) = getc self; (cs, self2) = getn n self1 in (c @ cs, self2))"

text \<open>
  \<open>read_ident\<close>: peeks characters up to the end of the stream, a character of
  \<open>ends_ident\<close> or white space, consumes what it peeked with \<open>getn\<close> and returns it.
\<close>

definition read_ident :: "reader \<Rightarrow> string \<times> reader" where
  "read_ident self =
     (let ident = takeWhile (\<lambda>nc. nc \<notin> ends_ident self \<and> \<not> hy_whitespace nc)
                    (chars_left self)
      in (ident, snd (getn (length ident) self)))"

text \<open>
  The loop of \<open>read_chars_until\<close> over \<open>self.chars()\<close>: each character is consumed and
  appended; when \<open>closing\<close> answers a number \<open>n\<close> other than zero the last \<open>n\<close> characters
  are cut off and the loop ends. The result is the text and the rest of the stream, or
  \<open>None\<close> when the stream ends first (\<open>chars()\<close> then raises).
\<close>

fun scan_until :: "(char \<Rightarrow> nat) \<Rightarrow> string \<Rightarrow> string \<Rightarrow> (string \<times> string) option" where
  "scan_until closing s [] = None"
| "scan_until closing s (c # cs) =
     (let s1 = s @ [c]; n_closing_chars = closing c
      in if n_closing_chars \<noteq> 0 then Some (take (length s1 - n_closing_chars) s1, cs)
         else scan_until closing s1 cs)"

text \<open>\<^verbatim>\<open>.replace("\x0d\x0a", "\x0a").replace("\x0d", "\x0a")\<close>\<close>

fun replace_crlf :: "string \<Rightarrow> string" where
  "replace_crlf (c # d # cs) =
     (if c = CHR 0x0D \<and> d = CHR 0x0A then CHR 0x0A # replace_crlf cs
      else c # replace_crlf (d # cs))"
| "replace_crlf cs = cs"

definition replace_cr :: "string \<Rightarrow> string" where
  "replace_cr s = map (\<lambda>c. if c = CHR 0x0D then CHR 0x0A else c) s"

text \<open>
  When a prefix is given, \<open>read_chars_until\<close> decodes the backslash escapes of the text
  and returns the result. A text without backslash has none and stays as it is; for a
  text with a backslash the result, or the exception for an escape that is not valid, is
  that of the library: the parameter \<open>unescape\<close>, from the prefix and the text.
\<close>

definition decode_escapes ::
  "(string \<Rightarrow> string \<Rightarrow> py_error + string) \<Rightarrow> string \<Rightarrow> string \<Rightarrow> py_error + string" where
  "decode_escapes unescape prefix s =
     (if CHR 0x5C \<in> set s then unescape prefix s else Inr s)"

text \<open>
  \<open>read_chars_until(closing, prefix, is_fstring=False)\<close>: the loop above, the newline
  replacements, and, unless the prefix is \<open>None\<close>, the decoding of the escapes.
  When the stream ends before \<open>closing\<close> answers, \<open>chars()\<close> has consumed everything and
  raises \<open>PrematureEndOfInput\<close>. The reader keeps what was consumed also when an
  exception is raised.
\<close>

definition read_chars_until ::
  "(string \<Rightarrow> string \<Rightarrow> py_error + string) \<Rightarrow> (char \<Rightarrow> nat) \<Rightarrow> string option \<Rightarrow> reader
     \<Rightarrow> string result" where
  "read_chars_until unescape closing prefix self =
     (case scan_until closing [] (chars_left self) of
        None \<Rightarrow>
          (let self1 = snd (getn (length (chars_left self)) self)
           in (Inl (PrematureEndOfInput ''Premature end of input while streaming chars''
                      (eof_tracker self1)), self1))
      | Some (s, rest) \<Rightarrow>
          (let self1 = snd (getn (length (chars_left self) - length rest) self);
               res = replace_cr (replace_crlf s)
           in (case prefix of
                 None \<Rightarrow> (Inr res, self1)
               | Some p \<Rightarrow> (decode_escapes unescape p res, self1))))"

text \<open>
  \<open>Reader.__init__\<close>: the reader table is a copy of the \<open>DEFAULT_TABLE\<close> of the class
  of the object under construction, which holds the methods that this class itself
  declares with \<open>reader_for\<close>.
\<close>

definition Reader_init :: "(string \<rightharpoonup> handler) \<Rightarrow> reader" where
  "Reader_init cls_table =
     \<lparr>chars_left = [], pos = 0, eof_tracker = 0, ends_ident = set NON_IDENT,
      reader_table = cls_table, reader_macros = Map.empty\<rparr>"

text \<open>
  \<open>HyReader.__init__(self, *, use_current_readers=False)\<close>: any other keyword is a
  \<open>TypeError\<close>. The entries of the table whose key is \<open>#\<close> followed by more characters
  move to \<open>reader_macros\<close> under the key without the \<open>#\<close>; when the option is true, the
  reader macros registered in the running process are added.
\<close>

definition HyReader_init ::
  "(string \<rightharpoonup> handler) \<Rightarrow> (string \<rightharpoonup> handler) \<Rightarrow> (string \<times> py_object) list
     \<Rightarrow> py_error + reader" where
  "HyReader_init cls_table current_readers kwargs =
     (if list_all (\<lambda>kv. fst kv = ''use_current_readers'') kwargs then
        (let self = Reader_init cls_table;
             moved = (\<lambda>tag. tag \<noteq> [] \<and> hd tag = CHR ''#'' \<and> tl tag \<noteq> []);
             self = self\<lparr>reader_macros :=
                            (\<lambda>n. if n = [] then None else reader_table self (CHR ''#'' # n)),
                         reader_table :=
                            (\<lambda>tag. if moved tag then None else reader_table self tag)\<rparr>
         in (case map_of kwargs ''use_current_readers'' of
               None \<Rightarrow> Inr self
             | Some v \<Rightarrow>
                 (case py_bool v of
                    Inl e \<Rightarrow> Inl e
                  | Inr use_current_readers \<Rightarrow>
                      Inr (if use_current_readers
                           then self\<lparr>reader_macros := reader_macros self ++ current_readers\<rparr>
                           else self))))
      else Inl TypeError)"

text \<open>Handing a text to a reader before reading: the stream starts at its beginning.\<close>

definition set_source :: "string \<Rightarrow> reader \<Rightarrow> reader" where
  "set_source text self = self\<lparr>chars_left := text, pos := 0, eof_tracker := 0\<rparr>"

section \<open>The class HySafeReader\<close>

text \<open>
  The class body declares \<open>tag_dispatch\<close> with \<open>reader_for("#")\<close> and \<open>line_comment\<close> with
  \<open>reader_for(";")\<close>: these two entries are the \<open>DEFAULT_TABLE\<close> of the class.
\<close>

definition HySafeReader_DEFAULT_TABLE :: "string \<rightharpoonup> handler" where
  "HySafeReader_DEFAULT_TABLE =
     [''#'' \<mapsto> tag_dispatch_handler, '';'' \<mapsto> line_comment_handler]"

text \<open>\<open>kwargs.pop(key, None)\<close>\<close>

definition dict_pop :: "string \<Rightarrow> (string \<times> py_object) list \<Rightarrow> (string \<times> py_object) list" where
  "dict_pop key kwargs = filter (\<lambda>kv. fst kv \<noteq> key) kwargs"

text \<open>
  \<open>HySafeReader.__init__(self, **kwargs)\<close>. The constructor of the base class and the
  table \<open>HyReader.DEFAULT_TABLE\<close> come from the library and are parameters.
  \<^verbatim>\<open>
    kwargs.pop('use_current_readers', None)
    super().__init__(use_current_readers=False, **kwargs)
    parent_table = HyReader.DEFAULT_TABLE.copy()
    parent_table.update(self.reader_table)
    self.reader_table = parent_table
    self.reader_macros.clear()
  \<close>
\<close>

definition HySafeReader_init ::
  "((string \<times> py_object) list \<Rightarrow> py_error + reader) \<Rightarrow> (string \<rightharpoonup> handler)
     \<Rightarrow> (string \<times> py_object) list \<Rightarrow> py_error + reader" where
  "HySafeReader_init super_init HyReader_DEFAULT_TABLE kwargs =
     (let kwargs1 = dict_pop ''use_current_readers'' kwargs
      in case super_init ((''use_current_readers'', Bool False) # kwargs1) of
           Inl e \<Rightarrow> Inl e
         | Inr self \<Rightarrow>
             (let parent_table = HyReader_DEFAULT_TABLE;
                  parent_table = parent_table ++ reader_table self;
                  self = self\<lparr>reader_table := parent_table\<rparr>
              in Inr (self\<lparr>reader_macros := Map.empty\<rparr>)))"

text \<open>
  \<open>HySafeReader(**kwargs)\<close> in a process where the reader macros \<open>current_readers\<close> are
  registered: the base constructor runs on an object of class \<open>HySafeReader\<close>.
\<close>

definition new_HySafeReader ::
  "(string \<rightharpoonup> handler) \<Rightarrow> (string \<rightharpoonup> handler) \<Rightarrow> (string \<times> py_object) list
     \<Rightarrow> py_error + reader" where
  "new_HySafeReader HyReader_DEFAULT_TABLE current_readers kwargs =
     HySafeReader_init (HyReader_init HySafeReader_DEFAULT_TABLE current_readers)
       HyReader_DEFAULT_TABLE kwargs"


text \<open>
  \<open>Symbol(name, from_parser=True)\<close>: the flag tells the constructor that the text comes
  from the parser, so that it is taken as it is, without the check that it is a legal
  symbol. The flag is not kept in the object.
\<close>

definition Symbol_from_parser :: "string \<Rightarrow> py_object" where
  "Symbol_from_parser s = Symbol s"

text \<open>
  \<open>tag_dispatch(self, key)\<close>:
  \<^verbatim>\<open>
    if not self.peekc().strip():
        raise PrematureEndOfInput.from_reader(
            "Premature end of input while attempting dispatch", self)
    ident = self.read_ident() or self.getc()
    return Symbol(f"#{ident}", from_parser=True)
  \<close>
\<close>

definition tag_dispatch :: "reader \<Rightarrow> string \<Rightarrow> py_object result" where
  "tag_dispatch self key =
     (if strip (peekc self) = [] then
        (Inl (PrematureEndOfInput ''Premature end of input while attempting dispatch''
                (eof_tracker self)), self)
      else
        (let (ident, self1) = read_ident self;
             (ident, self2) = (if ident \<noteq> [] then (ident, self1) else getc self1)
         in (Inr (Symbol_from_parser (''#'' @ ident)), self2)))"

text \<open>The inner function of \<open>line_comment\<close>: \<^verbatim>\<open>return c == "\n"\<close>\<close>

definition comment_closing :: "char \<Rightarrow> bool" where
  "comment_closing c = (c = newline)"

text \<open>
  \<open>line_comment(self, _)\<close>:
  \<^verbatim>\<open>
    s = self.read_chars_until(comment_closing, ";", is_fstring=False)
    return Comment(s)
  \<close>
  The truth value that \<open>comment_closing\<close> returns is used as a number by
  \<open>read_chars_until\<close> (\<open>True\<close> is 1).
\<close>

definition line_comment ::
  "(string \<Rightarrow> string \<Rightarrow> py_error + string) \<Rightarrow> reader \<Rightarrow> string \<Rightarrow> py_object result" where
  "line_comment unescape self key =
     (case read_chars_until unescape (\<lambda>c. of_bool (comment_closing c)) (Some '';'') self of
        (Inl e, self1) \<Rightarrow> (Inl e, self1)
      | (Inr s, self1) \<Rightarrow> (Inr (Comment_init s), self1))"

section \<open>The specification's wording\<close>

text \<open>
  The longest identifier-shaped token at the head of a text: all the characters up to the
  first one that ends an identifier or is white space for the reader.
\<close>

definition longest_ident_prefix :: "char set \<Rightarrow> string \<Rightarrow> string" where
  "longest_ident_prefix ends s = takeWhile (\<lambda>x. x \<notin> ends \<and> \<not> hy_whitespace x) s"

text \<open>
  What a dispatch form reads after the introducer: the longest identifier-shaped token,
  or exactly one character when there is no identifier character.
\<close>

definition spec_dispatch_token :: "reader \<Rightarrow> string" where
  "spec_dispatch_token r =
     (let ident = longest_ident_prefix (ends_ident r) (chars_left r)
      in if ident = [] then take 1 (chars_left r) else ident)"


text \<open>
  A safe reader on a text, at the moment a handler is called: the read loop has consumed
  the first character of the text, the introducer.
\<close>

definition after_introducer :: "string \<Rightarrow> reader" where
  "after_introducer text = snd (getc (set_source text (Reader_init HySafeReader_DEFAULT_TABLE)))"

section \<open>The read loop of the base reader\<close>

text \<open>
  The read loop (\<open>parse_forms_until\<close>, \<open>try_parse_one_form\<close>) and the handlers of the base
  grammar are code of the library. A handler is modelled by what it asks of the reader:
  it returns a node or \<open>None\<close>, it raises, it works on the character stream and its
  two positions (reading, peeking, consuming), or it asks the reader for the next form
  and goes on with the answer, a node, \<open>None\<close> or the exception raised. The handlers of
  the library reach the reader table in this last way only.
\<close>

datatype 'n action =
    Return "'n option"
  | Raise py_error
  | Chars "string \<times> nat \<times> nat \<Rightarrow> (string \<times> nat \<times> nat) \<times> 'n action"
  | Parse "py_error + 'n option \<Rightarrow> 'n action"

text \<open>
  What the library contributes to a reading, for a type \<open>'n\<close> of syntax nodes: the body
  of each handler that a table can hold, the default handler for a character without
  entry, the nodes that stand for a symbol and a comment, the decoding of a text with
  backslashes, and what \<open>try_parse_one_form\<close> does to every result: \<open>fill_pos\<close> gives a
  node its positions, from the position where the form starts and the one where it ends,
  and an exception that is not one of the reader's is wrapped into one, with the
  position of the reader.
\<close>

record 'n hy_library =
  handler_body :: "handler \<Rightarrow> string \<Rightarrow> 'n action"
  read_default :: "string \<Rightarrow> 'n action"
  as_node :: "py_object \<Rightarrow> 'n"
  unescape :: "string \<Rightarrow> string \<Rightarrow> py_error + string"
  fill_pos :: "nat \<Rightarrow> nat \<Rightarrow> 'n \<Rightarrow> 'n"
  wrap_error :: "nat \<Rightarrow> py_error \<Rightarrow> py_error"

text \<open>\<open>slurp_space\<close>: consumes the white space at the head of the stream, with \<open>getn\<close>.\<close>

definition slurp_space :: "reader \<Rightarrow> reader" where
  "slurp_space self =
     snd (getn (length (takeWhile hy_whitespace (chars_left self))) self)"

text \<open>
  The outcome of a reading step: the result, the reader, and the characters that the
  loop has looked up in the reader table so far; \<open>None\<close> when the bound on the number of
  steps is used up.
\<close>

type_synonym 'n parsed = "((py_error + 'n option) \<times> reader \<times> string list) option"

definition lift_node :: "'n hy_library \<Rightarrow> py_object result \<Rightarrow> string list \<Rightarrow> 'n parsed" where
  "lift_node L res tr =
     (case res of
        (Inl e, self) \<Rightarrow> Some (Inl e, self, tr)
      | (Inr v, self) \<Rightarrow> Some (Inr (Some (as_node L v)), self, tr))"

text \<open>
  What \<open>try_parse_one_form\<close> returns for the outcome of a handler: a node with its
  positions filled in, \<open>None\<close>, or the exception, wrapped.
\<close>

definition finish ::
  "'n hy_library \<Rightarrow> nat \<Rightarrow> nat \<Rightarrow> py_error + 'n option \<Rightarrow> py_error + 'n option" where
  "finish L start stop model =
     (case model of
        Inl e \<Rightarrow> Inl (wrap_error L stop e)
      | Inr None \<Rightarrow> Inr None
      | Inr (Some m) \<Rightarrow> Inr (Some (fill_pos L start stop m)))"

text \<open>
  \<open>try_parse_one_form\<close>: skip white space, consume one character \<open>c\<close>, fail at the end of
  the stream, else \<^verbatim>\<open>handler = self.reader_table.get(c)\<close> and
  \<^verbatim>\<open>handler(self, c) if handler else self.read_default(c)\<close>. \<open>run\<close> carries out the body of
  a handler of the library.
\<close>

fun run :: "nat \<Rightarrow> 'n hy_library \<Rightarrow> reader \<Rightarrow> string list \<Rightarrow> 'n action \<Rightarrow> 'n parsed"
and try_parse_one_form :: "nat \<Rightarrow> 'n hy_library \<Rightarrow> reader \<Rightarrow> string list \<Rightarrow> 'n parsed" where
  "run 0 L self tr a = None"
| "run (Suc n) L self tr (Return v) = Some (Inr v, self, tr)"
| "run (Suc n) L self tr (Raise e) = Some (Inl e, self, tr)"
| "run (Suc n) L self tr (Chars f) =
     (case f (chars_left self, pos self, eof_tracker self) of
        ((cs, p, t), a) \<Rightarrow> run n L (self\<lparr>chars_left := cs, pos := p, eof_tracker := t\<rparr>) tr a)"
| "run (Suc n) L self tr (Parse k) =
     (case try_parse_one_form n L self tr of
        None \<Rightarrow> None
      | Some (answer, self1, tr1) \<Rightarrow> run n L self1 tr1 (k answer))"
| "try_parse_one_form 0 L self tr = None"
| "try_parse_one_form (Suc n) L self tr =
     (let self1 = slurp_space self; (c, self2) = getc self1
      in if c = [] then
           Some (Inl (PrematureEndOfInput
                        ''Premature end of input while attempting to parse one form''
                        (eof_tracker self2)), self2, tr)
         else
           (case (case reader_table self2 c of
                    None \<Rightarrow> run n L self2 (tr @ [c]) (read_default L c)
                  | Some tag_dispatch_handler \<Rightarrow> lift_node L (tag_dispatch self2 c) (tr @ [c])
                  | Some line_comment_handler \<Rightarrow>
                      lift_node L (line_comment (unescape L) self2 c) (tr @ [c])
                  | Some h \<Rightarrow> run n L self2 (tr @ [c]) (handler_body L h c)) of
              None \<Rightarrow> None
            | Some (model, self3, tr3) \<Rightarrow>
                Some (finish L (pos self2) (pos self3) model, self3, tr3)))"

text \<open>
  \<open>parse_forms_until("")\<close>, the loop that yields the nodes of a text up to the end of
  the stream: the nodes yielded, the exception that ended the reading if there was one,
  and the characters looked up.
\<close>

fun parse_forms ::
  "nat \<Rightarrow> 'n hy_library \<Rightarrow> reader \<Rightarrow> string list
     \<Rightarrow> ('n list \<times> py_error option \<times> string list) option" where
  "parse_forms 0 L self tr = None"
| "parse_forms (Suc n) L self tr =
     (let self1 = slurp_space self
      in if chars_left self1 = [] then Some ([], None, tr)
         else (case try_parse_one_form n L self1 tr of
                 None \<Rightarrow> None
               | Some (Inl e, self2, tr2) \<Rightarrow> Some ([], Some e, tr2)
               | Some (Inr model, self2, tr2) \<Rightarrow>
                   (case parse_forms n L self2 tr2 of
                      None \<Rightarrow> None
                    | Some (models, err, tr3) \<Rightarrow>
                        Some ((case model of None \<Rightarrow> models | Some m \<Rightarrow> m # models),
                              err, tr3))))"

text \<open>Reading a whole text with a reader, within \<open>n\<close> steps.\<close>

definition read_all ::
  "nat \<Rightarrow> 'n hy_library \<Rightarrow> reader \<Rightarrow> string
     \<Rightarrow> ('n list \<times> py_error option \<times> string list) option" where
  "read_all n L r text = parse_forms n L (set_source text r) []"


text \<open>
  A second small instance, with lists: \<open>(\<close> has a handler that asks for forms up to the
  closing \<open>)\<close> and returns the list of them (of at most eight); any other character
  starts an atom, which runs up to the next white space or character of \<open>NON_IDENT\<close> and
  is kept as its text.
\<close>

datatype sexp = Leaf py_object | Seq "sexp list"

primrec forms_until_paren :: "nat \<Rightarrow> sexp list \<Rightarrow> sexp action" where
  "forms_until_paren 0 acc = Raise SyntaxError"
| "forms_until_paren (Suc k) acc =
     Chars (\<lambda>(cs, p, t).
       (let ws = takeWhile hy_whitespace cs;
            cs1 = drop (length ws) cs;
            p1 = p + length ws
        in if take 1 cs1 = '')'' then
             ((drop 1 cs1, p1 + 1, p1 + 1), Return (Some (Seq acc)))
           else
             ((cs1, p1, t),
              Parse (\<lambda>answer.
                case answer of
                  Inl e \<Rightarrow> Raise e
                | Inr None \<Rightarrow> forms_until_paren k acc
                | Inr (Some m) \<Rightarrow> forms_until_paren k (acc @ [m])))))"

definition small_lisp :: "sexp hy_library" where
  "small_lisp =
     \<lparr>handler_body =
        (\<lambda>h c. if h = base_handler ''paren'' then forms_until_paren 8 []
               else Raise SyntaxError),
      read_default = (\<lambda>c. Chars (\<lambda>(cs, p, t).
         (let ident = takeWhile (\<lambda>x. \<not> hy_whitespace x \<and> x \<notin> set NON_IDENT) cs
          in ((drop (length ident) cs, p + length ident, p + length ident),
              Return (Some (Leaf (Str (c @ ident)))))))),
      as_node = Leaf,
      unescape = (\<lambda>p s. Inl SyntaxError),
      fill_pos = (\<lambda>p q m. m),
      wrap_error = (\<lambda>q e. e)\<rparr>"

text \<open>
  The end-of-input position after the characters \<open>cs\<close> have been consumed, from the
  position \<open>p\<close> and the end-of-input position \<open>t\<close> before: that of the last of them that is
  not white space, or \<open>t\<close> when all are.
\<close>

fun track :: "nat \<Rightarrow> nat \<Rightarrow> string \<Rightarrow> nat" where
  "track p t [] = t"
| "track p t (c # cs) = track (Suc p) (if hy_whitespace c then t else Suc p) cs"

section \<open>Properties of Comment\<close>

text \<open>
  C5: for every text \<open>t\<close> and every value \<open>v\<close>, also another comment of the same text and
  the comment itself, \<open>Comment(t) == v\<close> is false and \<open>Comment(t) != v\<close> is true; in
  particular \<open>Comment(t) == Comment(t)\<close> is false.
\<close>

theorem Comment_never_equal:
  "py_eq (Comment_init t) v = False
   \<and> py_ne (Comment_init t) v = True
   \<and> py_eq (Comment_init t) (Comment_init t) = False"
  by (simp add: py_eq_def py_ne_def Comment_init_def Comment_eq_def Comment_ne_def)

text \<open>
  C6: for every text \<open>t\<close>, rendering \<open>Comment(t)\<close> gives the character \<open>;\<close>, then \<open>t\<close>, then
  one newline, whatever \<open>t\<close> ends with; the comment of \<open>" hello world"\<close> renders as
  \<open>"; hello world\n"\<close>. Rendering is a function of the comment alone.
\<close>

theorem Comment_str_render:
  "Comment_str (Comment_init t) = CHR '';'' # t @ [CHR 0x0A]
   \<and> Comment_str (Comment_init '' hello world'') = ''; hello world'' @ [CHR 0x0A]
   \<and> length (Comment_str (Comment_init t)) = length t + 2
   \<and> last (Comment_str (Comment_init t)) = CHR 0x0A"
  by (simp add: Comment_str_def Comment_init_def newline_def)

text \<open>
  C8: converting a comment to a boolean. The conversion passes one argument to
  \<open>Comment.__bool__\<close>, which requires two, so for every text the conversion raises
  \<open>TypeError\<close> and returns no value.
\<close>

theorem Comment_bool_raises:
  "py_bool (Comment_init t) = Inl TypeError"
  by (simp add: py_bool_def Comment_init_def call_two_params_def)

text \<open>
  C10: every comment is an instance of the class \<open>Keyword\<close> of the base language, as
  \<open>Comment\<close> is declared a subclass of it.
\<close>

theorem Comment_isinstance_Keyword:
  "isinstance (Comment_init t) Class_Keyword
   \<and> issubclass Class_Comment Class_Keyword
   \<and> \<not> issubclass Class_Keyword Class_Comment"
  by (simp add: isinstance_def issubclass_def Comment_init_def eval_nat_numeral)

section \<open>Properties of the stream\<close>

lemma hy_whitespace_isspace: "hy_whitespace c \<Longrightarrow> isspace c"
  by (auto simp: hy_whitespace_def isspace_def)

lemma getn_explicit:
  "n \<le> length (chars_left r) \<Longrightarrow>
   getn n r =
     (take n (chars_left r),
      r\<lparr>chars_left := drop n (chars_left r), pos := pos r + n,
        eof_tracker := track (pos r) (eof_tracker r) (take n (chars_left r))\<rparr>)"
proof (induction n arbitrary: r)
  case 0
  show ?case by simp
next
  case (Suc n)
  then obtain c cs where r: "chars_left r = c # cs" by (cases "chars_left r") auto
  with Suc.prems have "n \<le> length cs" by simp
  with r Suc.IH[of "snd (getc r)"] show ?case
    by (simp add: getc_def)
qed


lemma track_nonspace:
  "cs \<noteq> [] \<Longrightarrow> \<not> hy_whitespace (last cs) \<Longrightarrow> track p t cs = p + length cs"
  by (induction cs arbitrary: p t) (auto split: if_splits)



section \<open>Properties of tag_dispatch\<close>

lemma strip_peekc:
  "(strip (peekc r) = []) = (case chars_left r of [] \<Rightarrow> True | c # _ \<Rightarrow> isspace c)"
  by (simp add: strip_def peekc_def split: list.splits)

lemma read_ident_explicit:
  "read_ident r =
     (longest_ident_prefix (ends_ident r) (chars_left r),
      r\<lparr>chars_left := drop (length (longest_ident_prefix (ends_ident r) (chars_left r)))
                        (chars_left r),
        pos := pos r + length (longest_ident_prefix (ends_ident r) (chars_left r)),
        eof_tracker := track (pos r) (eof_tracker r)
                         (longest_ident_prefix (ends_ident r) (chars_left r))\<rparr>)"
proof -
  let ?ident = "takeWhile (\<lambda>nc. nc \<notin> ends_ident r \<and> \<not> hy_whitespace nc) (chars_left r)"
  have le: "length ?ident \<le> length (chars_left r)" by (rule length_takeWhile_le)
  have tk: "take (length ?ident) (chars_left r) = ?ident"
    by (simp add: takeWhile_eq_take[symmetric] del: takeWhile_eq_take)
  show ?thesis
    unfolding read_ident_def Let_def longest_ident_prefix_def getn_explicit[OF le] tk
    by simp
qed

lemma ident_track:
  assumes "longest_ident_prefix ends s \<noteq> []"
  shows "track p t (longest_ident_prefix ends s) = p + length (longest_ident_prefix ends s)"
proof -
  from assms have "last (longest_ident_prefix ends s) \<in> set (longest_ident_prefix ends s)"
    by simp
  then have "\<not> hy_whitespace (last (longest_ident_prefix ends s))"
    unfolding longest_ident_prefix_def by (auto dest: set_takeWhileD)
  with assms show ?thesis by (rule track_nonspace)
qed

lemma tag_dispatch_nonspace:
  assumes "chars_left r = c # cs" and "\<not> isspace c"
  shows "tag_dispatch r key =
           (Inr (Symbol_from_parser (''#'' @ spec_dispatch_token r)),
            r\<lparr>chars_left := drop (length (spec_dispatch_token r)) (chars_left r),
              pos := pos r + length (spec_dispatch_token r),
              eof_tracker := pos r + length (spec_dispatch_token r)\<rparr>)"
proof (cases "longest_ident_prefix (ends_ident r) (chars_left r) = []")
  case True
  from assms(2) have "\<not> hy_whitespace c" using hy_whitespace_isspace by blast
  with True assms show ?thesis
    by (simp add: tag_dispatch_def strip_peekc read_ident_explicit spec_dispatch_token_def
          getc_def Let_def)
next
  case False
  with assms ident_track[OF False, of "pos r" "eof_tracker r"] show ?thesis
    by (simp add: tag_dispatch_def strip_peekc read_ident_explicit spec_dispatch_token_def
          Let_def)
qed

lemma tag_dispatch_space:
  assumes "case chars_left r of [] \<Rightarrow> True | c # _ \<Rightarrow> isspace c"
  shows "tag_dispatch r key =
           (Inl (PrematureEndOfInput ''Premature end of input while attempting dispatch''
                   (eof_tracker r)), r)"
  using assms by (simp add: tag_dispatch_def strip_peekc)










text \<open>
  C3, as stated, fails: for the input \<open>#\<close>, newline, \<open>foo\<close> the stream is not exhausted
  after the introducer, and \<open>tag_dispatch\<close> raises \<open>PrematureEndOfInput\<close> all the same.
\<close>

theorem tag_dispatch_premature_counterexample:
  "chars_left (after_introducer (CHR ''#'' # CHR 0x0A # ''foo'')) \<noteq> []
   \<and> fst (tag_dispatch (after_introducer (CHR ''#'' # CHR 0x0A # ''foo'')) ''#'')
       = Inl (PrematureEndOfInput ''Premature end of input while attempting dispatch'' 1)"
  by (simp add: after_introducer_def tag_dispatch_def strip_peekc getc_def set_source_def
        Reader_init_def isspace_def hy_whitespace_def)

text \<open>
  C3, amended: \<open>tag_dispatch\<close> raises exactly when the stream is exhausted after the
  introducer or its next character is white space; the exception is then
  \<open>PrematureEndOfInput\<close> with the position that the reader reports at the end of input,
  that of the last character consumed that is not white space, which is the introducer
  just consumed; nothing more is consumed. For the input \<open>#\<close> followed by the end of the
  stream the position is 1, that of the introducer, and so it is after an introducer at
  the head of any text.
\<close>

theorem tag_dispatch_premature:
  "(\<exists>e. fst (tag_dispatch r key) = Inl e)
     = (case chars_left r of [] \<Rightarrow> True | c # _ \<Rightarrow> isspace c)
   \<and> (fst (tag_dispatch r key)
         = Inl (PrematureEndOfInput ''Premature end of input while attempting dispatch''
                  (eof_tracker r)))
     = (case chars_left r of [] \<Rightarrow> True | c # _ \<Rightarrow> isspace c)
   \<and> (tag_dispatch r key
         = (Inl (PrematureEndOfInput ''Premature end of input while attempting dispatch''
                   (eof_tracker r)), r))
     = (case chars_left r of [] \<Rightarrow> True | c # _ \<Rightarrow> isspace c)
   \<and> fst (tag_dispatch (after_introducer ''#'') ''#'')
       = Inl (PrematureEndOfInput ''Premature end of input while attempting dispatch'' 1)
   \<and> eof_tracker (after_introducer (CHR ''#'' # rest)) = 1
   \<and> pos (after_introducer (CHR ''#'' # rest)) = 1"
proof -
  have ex: "fst (tag_dispatch (after_introducer ''#'') ''#'')
       = Inl (PrematureEndOfInput ''Premature end of input while attempting dispatch'' 1)"
    by (simp add: after_introducer_def tag_dispatch_def strip_peekc getc_def set_source_def
          hy_whitespace_def)
  have tr: "eof_tracker (after_introducer (CHR ''#'' # rest)) = 1
            \<and> pos (after_introducer (CHR ''#'' # rest)) = 1"
    by (simp add: after_introducer_def getc_def set_source_def hy_whitespace_def)
  show ?thesis
  proof (cases "case chars_left r of [] \<Rightarrow> True | c # _ \<Rightarrow> isspace c")
    case True
    with ex tr tag_dispatch_space[OF True, of key] show ?thesis by simp
  next
    case False
    then obtain c cs where r: "chars_left r = c # cs" and s: "\<not> isspace c"
      by (auto split: list.splits)
    with False ex tr tag_dispatch_nonspace[OF r s, of key] show ?thesis by simp
  qed
qed

section \<open>Properties of the constructor\<close>

lemma dict_pop_cons_same:
  "dict_pop k ((k, v) # kwargs) = dict_pop k kwargs"
  by (simp add: dict_pop_def)

lemma HySafeReader_init_cleared:
  "HySafeReader_init super_init DT kwargs = Inr r \<Longrightarrow> reader_macros r = Map.empty"
  by (auto simp: HySafeReader_init_def Let_def split: sum.splits)

lemma HySafeReader_init_super_arg:
  "HySafeReader_init super_init DT kwargs =
     HySafeReader_init
       (\<lambda>kw. if map_of kw ''use_current_readers'' = Some (Bool False) then super_init kw
             else Inl TypeError) DT kwargs"
  by (simp add: HySafeReader_init_def Let_def)

lemma HyReader_init_option_off:
  "HyReader_init tbl cur ((''use_current_readers'', Bool False) # kw) =
     (if list_all (\<lambda>kv. fst kv = ''use_current_readers'') kw then
        Inr ((Reader_init tbl)\<lparr>reader_macros :=
                 (\<lambda>n. if n = [] then None else tbl (CHR ''#'' # n)),
               reader_table :=
                 (\<lambda>tag. if tag \<noteq> [] \<and> hd tag = CHR ''#'' \<and> tl tag \<noteq> [] then None
                        else tbl tag)\<rparr>)
      else Inl TypeError)"
  by (simp add: HyReader_init_def Let_def py_bool_def Reader_init_def cong: if_cong)

lemma list_all_dict_pop:
  "list_all (\<lambda>kv. fst kv = k) (dict_pop k kw) = (dict_pop k kw = [])"
  by (induction kw) (auto simp: dict_pop_def)

lemma dict_pop_empty:
  "(dict_pop k kw = []) = list_all (\<lambda>kv. fst kv = k) kw"
  by (induction kw) (auto simp: dict_pop_def)

lemma own_table_kept:
  "(\<lambda>tag. if tag \<noteq> [] \<and> hd tag = CHR ''#'' \<and> tl tag \<noteq> [] then None
           else HySafeReader_DEFAULT_TABLE tag) = HySafeReader_DEFAULT_TABLE"
  by (auto simp: HySafeReader_DEFAULT_TABLE_def fun_eq_iff)

lemma own_table_no_macros:
  "(\<lambda>n. if n = [] then None else HySafeReader_DEFAULT_TABLE (CHR ''#'' # n)) = Map.empty"
  by (auto simp: HySafeReader_DEFAULT_TABLE_def fun_eq_iff)

lemma new_HySafeReader_eq:
  "new_HySafeReader DT cur kwargs =
     (if list_all (\<lambda>kv. fst kv = ''use_current_readers'') kwargs then
        Inr ((Reader_init HySafeReader_DEFAULT_TABLE)
               \<lparr>reader_table := DT ++ HySafeReader_DEFAULT_TABLE\<rparr>)
      else Inl TypeError)"
  by (simp add: new_HySafeReader_def HySafeReader_init_def Let_def HyReader_init_option_off
        list_all_dict_pop dict_pop_empty own_table_kept own_table_no_macros Reader_init_def)



text \<open>
  C2: whatever options the constructor is given, and whatever the constructor of the base
  class does with them, a constructed \<open>HySafeReader\<close> has an empty registry of reader
  macros: clearing it is the last step. With the base constructor of the library this
  holds for every table of the base class and all reader macros registered in the
  process, and the construction succeeds exactly when \<open>use_current_readers\<close> is the only
  option given.
\<close>

theorem HySafeReader_registry_empty:
  "(HySafeReader_init super_init DT kwargs = Inr r \<longrightarrow> reader_macros r = Map.empty)
   \<and> (new_HySafeReader DT cur kwargs = Inr r \<longrightarrow> reader_macros r = Map.empty)
   \<and> (\<exists>r'. new_HySafeReader DT cur kwargs = Inr r')
       = list_all (\<lambda>kv. fst kv = ''use_current_readers'') kwargs"
proof (intro conjI impI)
  show "HySafeReader_init super_init DT kwargs = Inr r \<Longrightarrow> reader_macros r = Map.empty"
    by (rule HySafeReader_init_cleared)
  show "new_HySafeReader DT cur kwargs = Inr r \<Longrightarrow> reader_macros r = Map.empty"
    unfolding new_HySafeReader_def by (rule HySafeReader_init_cleared)
  show "(\<exists>r'. new_HySafeReader DT cur kwargs = Inr r')
       = list_all (\<lambda>kv. fst kv = ''use_current_readers'') kwargs"
    by (simp add: new_HySafeReader_eq)
qed

theorem HySafeReader_registry_empty_witness:
  "(case new_HySafeReader
           [''('' \<mapsto> base_handler ''sequence'', ''#foo'' \<mapsto> registered_macro ''foo'']
           [''foo'' \<mapsto> registered_macro ''foo'']
           [(''use_current_readers'', Bool True)] of
      Inl e \<Rightarrow> False
    | Inr r \<Rightarrow> reader_macros r = Map.empty \<and> reader_macros r ''foo'' = None)"
proof -
  let ?DT = "[''('' \<mapsto> base_handler ''sequence'', ''#foo'' \<mapsto> registered_macro ''foo'']"
  let ?cur = "[''foo'' \<mapsto> registered_macro ''foo'']"
  let ?kw = "[(''use_current_readers'', Bool True)]"
  note inst = HySafeReader_registry_empty[of _ ?DT ?kw _ ?cur]
  have "list_all (\<lambda>kv. fst kv = ''use_current_readers'') ?kw" by simp
  with inst obtain r where r: "new_HySafeReader ?DT ?cur ?kw = Inr r" by blast
  with HySafeReader_registry_empty[of _ ?DT ?kw r ?cur]
  have "reader_macros r = Map.empty" by blast
  with r show ?thesis by simp
qed

lemma map_of_dict_pop:
  "k \<noteq> key \<Longrightarrow> map_of (dict_pop key kwargs) k = map_of kwargs k"
  by (induction kwargs) (auto simp: dict_pop_def)

lemma filter_dict_pop:
  "filter (\<lambda>kv. fst kv = key) (dict_pop key kwargs) = []"
  by (auto simp: dict_pop_def filter_empty_conv)

lemma HySafeReader_init_call:
  "HySafeReader_init super_init DT kwargs
     = (case super_init ((''use_current_readers'', Bool False)
                           # dict_pop ''use_current_readers'' kwargs) of
          Inl e \<Rightarrow> Inl e
        | Inr self \<Rightarrow>
            Inr (self\<lparr>reader_table := DT ++ reader_table self, reader_macros := Map.empty\<rparr>))"
  by (simp add: HySafeReader_init_def Let_def split: sum.splits)

lemma HyReader_init_option_on:
  "HyReader_init tbl cur [(''use_current_readers'', Bool True)] = Inr b \<Longrightarrow>
   reader_macros b = (\<lambda>n. if n = [] then None else tbl (CHR ''#'' # n)) ++ cur"
  by (auto simp: HyReader_init_def Let_def py_bool_def Reader_init_def cong: if_cong)

lemma new_HySafeReader_from_base:
  assumes "new_HySafeReader DT cur kwargs = Inr r"
  shows "\<exists>b. HyReader_init HySafeReader_DEFAULT_TABLE cur' [(''use_current_readers'', Bool False)]
               = Inr b
             \<and> r = b\<lparr>reader_table := DT ++ reader_table b, reader_macros := Map.empty\<rparr>"
  using assms
  by (auto simp: new_HySafeReader_eq HyReader_init_option_off own_table_kept
        own_table_no_macros Reader_init_def split: if_splits)

text \<open>
  C9: the constructor takes the caller's value of \<open>use_current_readers\<close> out of the
  options and calls the constructor of the base class with the option set to false and
  the other options as the caller gave them: it fails with the exception of the base
  constructor when that fails on these options, and otherwise returns the object that
  the base constructor built, with the table completed and the registry cleared. So the
  value that the caller passes makes no difference. With the base constructor of the
  library the construction succeeds whenever \<open>use_current_readers\<close> is the only option
  given, whatever its value, and the reader is the one that the base constructor builds
  with the option off, whatever reader macros are registered in the process. Two safe
  readers constructed with different values of the option, in processes with different
  registered reader macros, are therefore the same reader, and reading one text with
  each of them yields the same nodes, the same end of the reading and the same
  look-ups; so do the two handlers of \<open>HySafeReader\<close>.
\<close>

theorem HySafeReader_option_forced:
  "HySafeReader_init super_init DT kwargs
     = (case super_init ((''use_current_readers'', Bool False)
                           # dict_pop ''use_current_readers'' kwargs) of
          Inl e \<Rightarrow> Inl e
        | Inr self \<Rightarrow>
            Inr (self\<lparr>reader_table := DT ++ reader_table self, reader_macros := Map.empty\<rparr>))
   \<and> map_of ((''use_current_readers'', Bool False) # dict_pop ''use_current_readers'' kwargs)
        ''use_current_readers'' = Some (Bool False)
   \<and> filter (\<lambda>kv. fst kv = ''use_current_readers'')
        ((''use_current_readers'', Bool False) # dict_pop ''use_current_readers'' kwargs)
       = [(''use_current_readers'', Bool False)]
   \<and> (\<forall>k. k \<noteq> ''use_current_readers'' \<longrightarrow>
         map_of ((''use_current_readers'', Bool False)
                   # dict_pop ''use_current_readers'' kwargs) k = map_of kwargs k)
   \<and> HySafeReader_init super_init DT ((''use_current_readers'', v) # kwargs)
       = HySafeReader_init super_init DT kwargs
   \<and> (\<exists>r. new_HySafeReader DT cur ((''use_current_readers'', v) # kwargs) = Inr r)
       = list_all (\<lambda>kv. fst kv = ''use_current_readers'') kwargs
   \<and> (new_HySafeReader DT cur1 kwargs1 = Inr r1 \<longrightarrow>
        (\<exists>b. HyReader_init HySafeReader_DEFAULT_TABLE cur2
                [(''use_current_readers'', Bool False)] = Inr b
             \<and> r1 = b\<lparr>reader_table := DT ++ reader_table b, reader_macros := Map.empty\<rparr>))
   \<and> (new_HySafeReader DT cur1 kwargs1 = Inr r1 \<and> new_HySafeReader DT cur2 kwargs2 = Inr r2
        \<longrightarrow> r1 = r2
            \<and> read_all n L r1 source = read_all n L r2 source
            \<and> tag_dispatch (set_source source r1) key = tag_dispatch (set_source source r2) key
            \<and> line_comment (unescape L) (set_source source r1) key
                = line_comment (unescape L) (set_source source r2) key)"
proof -
  have args: "\<forall>k. k \<noteq> ''use_current_readers'' \<longrightarrow>
         map_of ((''use_current_readers'', Bool False)
                   # dict_pop ''use_current_readers'' kwargs) k = map_of kwargs k"
    by (simp add: map_of_dict_pop)
  have once: "filter (\<lambda>kv. fst kv = ''use_current_readers'')
        ((''use_current_readers'', Bool False) # dict_pop ''use_current_readers'' kwargs)
       = [(''use_current_readers'', Bool False)]"
    using filter_dict_pop[of "''use_current_readers''" kwargs] by simp
  have off: "map_of ((''use_current_readers'', Bool False)
                       # dict_pop ''use_current_readers'' kwargs)
        ''use_current_readers'' = Some (Bool False)"
    by simp
  have same: "HySafeReader_init super_init DT ((''use_current_readers'', v) # kwargs)
     = HySafeReader_init super_init DT kwargs"
    by (simp add: HySafeReader_init_def dict_pop_cons_same)
  have built: "(\<exists>r. new_HySafeReader DT cur ((''use_current_readers'', v) # kwargs) = Inr r)
       = list_all (\<lambda>kv. fst kv = ''use_current_readers'') kwargs"
    by (simp add: new_HySafeReader_eq)
  have base: "new_HySafeReader DT cur1 kwargs1 = Inr r1 \<longrightarrow>
        (\<exists>b. HyReader_init HySafeReader_DEFAULT_TABLE cur2
                [(''use_current_readers'', Bool False)] = Inr b
             \<and> r1 = b\<lparr>reader_table := DT ++ reader_table b, reader_macros := Map.empty\<rparr>)"
    using new_HySafeReader_from_base[of DT cur1 kwargs1 r1 cur2] by blast
  have det: "new_HySafeReader DT cur1 kwargs1 = Inr r1 \<and> new_HySafeReader DT cur2 kwargs2 = Inr r2
        \<longrightarrow> r1 = r2
            \<and> read_all n L r1 source = read_all n L r2 source
            \<and> tag_dispatch (set_source source r1) key = tag_dispatch (set_source source r2) key
            \<and> line_comment (unescape L) (set_source source r1) key
                = line_comment (unescape L) (set_source source r2) key"
    by (auto simp: new_HySafeReader_eq split: if_splits)
  show ?thesis
    by (intro conjI HySafeReader_init_call off once args same built base det)
qed

theorem HySafeReader_option_forced_witness:
  "(case new_HySafeReader
           [''('' \<mapsto> base_handler ''paren'', ''#'' \<mapsto> base_handler ''tag_dispatch'']
           [''foo'' \<mapsto> registered_macro ''foo'']
           [(''use_current_readers'', Bool True)] of
      Inl e \<Rightarrow> False
    | Inr r1 \<Rightarrow>
        (case new_HySafeReader
                [''('' \<mapsto> base_handler ''paren'', ''#'' \<mapsto> base_handler ''tag_dispatch'']
                Map.empty
                [(''use_current_readers'', Bool False)] of
           Inl e \<Rightarrow> False
         | Inr r2 \<Rightarrow>
             r1 = r2
             \<and> reader_macros r1 ''foo'' = None
             \<and> read_all 12 small_lisp r1 ''#foo (bar)''
                 = Some ([Leaf (Symbol ''#foo''), Seq [Leaf (Str ''bar'')]], None,
                         [''#'', ''('', ''b''])
             \<and> read_all 12 small_lisp r2 ''#foo (bar)''
                 = Some ([Leaf (Symbol ''#foo''), Seq [Leaf (Str ''bar'')]], None,
                         [''#'', ''('', ''b''])))
   \<and> (case HyReader_init HySafeReader_DEFAULT_TABLE [''foo'' \<mapsto> registered_macro ''foo'']
             [(''use_current_readers'', Bool True)] of
        Inl e \<Rightarrow> False
      | Inr b \<Rightarrow> reader_macros b ''foo'' = Some (registered_macro ''foo''))"
proof -
  let ?DT = "[''('' \<mapsto> base_handler ''paren'', ''#'' \<mapsto> base_handler ''tag_dispatch'']"
  let ?cur = "[''foo'' \<mapsto> registered_macro ''foo'']"
  let ?out = "Some ([Leaf (Symbol ''#foo''), Seq [Leaf (Str ''bar'')]], None,
                    [''#'', ''('', ''b''])"
  note built1 = HySafeReader_option_forced[where DT = ?DT and cur = ?cur and v = "Bool True"
      and kwargs = "[]", THEN conjunct2, THEN conjunct2, THEN conjunct2, THEN conjunct2,
      THEN conjunct2, THEN conjunct1]
  note built2 = HySafeReader_option_forced[where DT = ?DT and cur = Map.empty
      and v = "Bool False" and kwargs = "[]", THEN conjunct2, THEN conjunct2, THEN conjunct2,
      THEN conjunct2, THEN conjunct2, THEN conjunct1]
  from built1 obtain r1 where
    r1: "new_HySafeReader ?DT ?cur [(''use_current_readers'', Bool True)] = Inr r1"
    by auto
  from built2 obtain r2 where
    r2: "new_HySafeReader ?DT Map.empty [(''use_current_readers'', Bool False)] = Inr r2"
    by auto
  note det = HySafeReader_option_forced[where DT = ?DT and ?cur1.0 = ?cur
      and ?kwargs1.0 = "[(''use_current_readers'', Bool True)]" and ?r1.0 = r1
      and ?cur2.0 = Map.empty and ?kwargs2.0 = "[(''use_current_readers'', Bool False)]"
      and ?r2.0 = r2
      and n = 12 and L = small_lisp and source = "''#foo (bar)''",
      THEN conjunct2, THEN conjunct2, THEN conjunct2, THEN conjunct2, THEN conjunct2,
      THEN conjunct2, THEN conjunct2]
  from det r1 r2 have eq: "r1 = r2"
    and rd: "read_all 12 small_lisp r1 ''#foo (bar)'' = read_all 12 small_lisp r2 ''#foo (bar)''"
    by blast+
  from r2 have f: "r2 = (Reader_init HySafeReader_DEFAULT_TABLE)
                          \<lparr>reader_table := ?DT ++ HySafeReader_DEFAULT_TABLE\<rparr>"
    by (simp add: new_HySafeReader_eq)
  have fuel: "read_all 12 = read_all (Suc (Suc (Suc (Suc (Suc (Suc (Suc (Suc (Suc (Suc (Suc
                 (Suc 0))))))))))))"
    and eight: "forms_until_paren 8
                  = forms_until_paren (Suc (Suc (Suc (Suc (Suc (Suc (Suc (Suc 0))))))))"
    by (simp_all add: eval_nat_numeral)
  have out: "read_all 12 small_lisp r2 ''#foo (bar)'' = ?out"
    unfolding f fuel
    by (simp add: read_all_def small_lisp_def eight set_source_def Reader_init_def
          slurp_space_def getc_def hy_whitespace_def finish_def lift_node_def tag_dispatch_def
          strip_def peekc_def read_ident_def isspace_def NON_IDENT_def Symbol_from_parser_def
          HySafeReader_DEFAULT_TABLE_def map_add_def Let_def)
  have m: "reader_macros r2 ''foo'' = None"
    unfolding f by (simp add: Reader_init_def)
  have contrast: "(case HyReader_init HySafeReader_DEFAULT_TABLE ?cur
                          [(''use_current_readers'', Bool True)] of
        Inl e \<Rightarrow> False
      | Inr b \<Rightarrow> reader_macros b ''foo'' = Some (registered_macro ''foo''))"
    by (simp add: HyReader_init_def Let_def py_bool_def Reader_init_def map_add_def)
  from r1 r2 eq rd out m contrast show ?thesis by simp
qed

section \<open>Properties of line_comment\<close>

lemma scan_until_none:
  "\<forall>c\<in>set cs. closing c = 0 \<Longrightarrow> scan_until closing s cs = None"
  by (induction cs arbitrary: s) (auto simp: Let_def)





text \<open>
  At the end of the stream: when no newline is left, \<open>line_comment\<close> consumes the rest
  of the stream and raises \<open>PrematureEndOfInput\<close>, with the position of the last
  character that is not white space.
\<close>

lemma line_comment_eof:
  assumes "newline \<notin> set (chars_left r)"
  shows "line_comment dec r key =
     (Inl (PrematureEndOfInput ''Premature end of input while streaming chars''
             (track (pos r) (eof_tracker r) (chars_left r))),
      r\<lparr>chars_left := [], pos := pos r + length (chars_left r),
        eof_tracker := track (pos r) (eof_tracker r) (chars_left r)\<rparr>)"
proof -
  have "scan_until (\<lambda>c. of_bool (comment_closing c)) [] (chars_left r) = None"
    using assms by (intro scan_until_none) (auto simp: comment_closing_def)
  then show ?thesis
    by (simp add: line_comment_def read_chars_until_def Let_def getn_explicit)
qed








section \<open>Properties of the read loop\<close>


















end
